theory Spec2Isabelle
  imports Complex_Main "HOL-Library.Log_Nat" "HOL-Library.Code_Target_Nat"
begin

section \<open>The sliding-window rate limiter of main.py\<close>

text \<open>
  The limiter keeps, per client key, the list of the instants at which a request was
  admitted. Instants are Python floats read from the wall clock; a float is modelled by
  the real number it denotes, and the clock reading of each call is a parameter of the
  call. The two configuration attributes are Python ints.
\<close>

subsection \<open>Python primitives\<close>

datatype error = ValueError

text \<open>\<open>int(x)\<close> on a float truncates toward zero.\<close>

definition py_int :: "real \<Rightarrow> int" where
  "py_int x = (if 0 \<le> x then floor x else ceiling x)"

text \<open>
  Float arithmetic. A Python float is an IEEE binary64 number, and the result of a float
  operation is the exact result rounded to the nearest such number, a tie going to the
  one with the even significand. \<open>rne\<close> rounds a real to the nearest integer, ties to
  even. \<open>binade x\<close> is the exponent \<open>e\<close> with \<open>2 ^ e \<le> \<bar>x\<bar> < 2 ^ (e + 1)\<close>, for
  \<open>x\<close> other than 0. A binary64 number has 53 significant bits, so that in binade
  \<open>e\<close> the numbers are the multiples of \<open>2 ^ (e - 52)\<close>, and of \<open>2 ^ (- 1074)\<close> below
  \<open>2 ^ (- 1022)\<close>; \<open>fl x\<close> is the nearest of them to \<open>x\<close>. A magnitude from
  \<open>2 ^ 52\<close> on, where the numbers are a second or more apart and which no clock reading
  and no sum of a clock reading and a window reaches, is returned as it is.
\<close>

definition rne :: "real \<Rightarrow> int" where
  "rne y = (let f = floor y; d = y - real_of_int f
            in if d < 1 / 2 then f else if 1 / 2 < d then f + 1
               else if even f then f else f + 1)"

definition binade :: "real \<Rightarrow> int" where
  "binade x = (if 1 \<le> \<bar>x\<bar> then int (floorlog 2 (nat \<lfloor>\<bar>x\<bar>\<rfloor>)) - 1
               else - int (floorlog 2 (nat \<lceil>1 / \<bar>x\<bar>\<rceil> - 1)))"

definition pow2 :: "int \<Rightarrow> real" where
  "pow2 c = (if 0 \<le> c then 2 ^ nat c else 1 / 2 ^ nat (- c))"

definition fl :: "real \<Rightarrow> real" where
  "fl x = (if x = 0 \<or> 52 \<le> binade x then x
           else (let u = pow2 (max (binade x) (- 1022) - 52)
                 in real_of_int (rne (x / u)) * u))"

text \<open>\<open>min(xs)\<close> raises ValueError on an empty sequence.\<close>

definition min_py :: "real list \<Rightarrow> error + real" where
  "min_py xs = (case xs of [] \<Rightarrow> Inl ValueError | x # ys \<Rightarrow> Inr (fold min ys x))"

text \<open>
  \<open>d[k]\<close> on a \<open>defaultdict(list)\<close>: a missing key is inserted with the empty list,
  and that list is the value read.
\<close>

definition getitem :: "(string \<rightharpoonup> real list) \<Rightarrow> string \<Rightarrow> real list \<times> (string \<rightharpoonup> real list)" where
  "getitem d k = (case d k of None \<Rightarrow> ([], d(k \<mapsto> [])) | Some v \<Rightarrow> (v, d))"

subsection \<open>The limiter object\<close>

record RateLimiter =
  requests :: "string \<rightharpoonup> real list"
  max_requests :: int
  time_window :: int

definition RateLimiter_init :: RateLimiter where
  "RateLimiter_init = \<lparr>requests = Map.empty, max_requests = 5, time_window = 60\<rparr>"

record rate_limit_info =
  allowed :: bool
  requests_made :: int
  requests_remaining :: int
  reset_time :: int
  retry_after :: "int option"

text \<open>
  \<open>RateLimiter.is_allowed\<close>. The pruned list is stored before the capacity check, so
  the limiter returned beside a ValueError already holds it, as the object does when the
  exception leaves the method.

  The float sums and the float difference behind \<open>reset_time\<close> and \<open>retry_after\<close>
  are rounded by \<open>fl\<close>. The cutoff is the exact difference: with the window of 60 the
  float subtraction \<open>current_time - 60\<close> is exact for every binary64 reading from 30 up
  to \<open>2 ^ 55\<close>, and for a reading between 0 and 30 the cutoff is at most -30 whether
  rounded or not, below every instant the clock has given.
\<close>

definition is_allowed ::
  "RateLimiter \<Rightarrow> string \<Rightarrow> real \<Rightarrow> (error + bool \<times> rate_limit_info) \<times> RateLimiter" where
  "is_allowed self client_ip current_time =
     (let (request_times, d0) = getitem (requests self) client_ip;
          cutoff_time = current_time - real_of_int (time_window self);
          kept = filter (\<lambda>req_time. req_time > cutoff_time) request_times;
          d1 = d0(client_ip \<mapsto> kept);
          current_request_count = int (length kept)
      in if current_request_count < max_requests self then
           (let remaining_requests = max_requests self - (current_request_count + 1)
            in (Inr (True,
                  \<lparr>allowed = True,
                   requests_made = current_request_count + 1,
                   requests_remaining = remaining_requests,
                   reset_time = py_int (fl (current_time + real_of_int (time_window self))),
                   retry_after = None\<rparr>),
                self\<lparr>requests := d1(client_ip \<mapsto> kept @ [current_time])\<rparr>))
         else
           (case min_py kept of
              Inl e \<Rightarrow> (Inl e, self\<lparr>requests := d1\<rparr>)
            | Inr oldest_request \<Rightarrow>
                (let retry = py_int (fl (fl (oldest_request + real_of_int (time_window self))
                                        - current_time))
                 in (Inr (False,
                       \<lparr>allowed = False,
                        requests_made = current_request_count,
                        requests_remaining = 0,
                        reset_time = py_int (fl (oldest_request + real_of_int (time_window self))),
                        retry_after = Some (max 1 retry)\<rparr>),
                     self\<lparr>requests := d1\<rparr>))))"

subsection \<open>The status endpoint\<close>

record rate_limit_body =
  status_max_requests :: int
  status_time_window :: int
  status_requests_made :: int
  status_requests_remaining :: int
  status_reset_time :: int
  window_resets_in :: int

record status_response =
  client_ip :: string
  rate_limit :: rate_limit_body
  timestamp :: real

text \<open>
  \<open>rate_limit_status\<close>, with the client address and the clock reading as parameters and
  the module's limiter passed in and out. The filtered list is a local value: the only
  change to the limiter is the entry that reading a missing key creates.
\<close>

definition rate_limit_status ::
  "RateLimiter \<Rightarrow> string \<Rightarrow> real \<Rightarrow> (error + status_response) \<times> RateLimiter" where
  "rate_limit_status rate_limiter ip current_time =
     (let (request_times, d0) = getitem (requests rate_limiter) ip;
          rl = rate_limiter\<lparr>requests := d0\<rparr>;
          cutoff_time = current_time - real_of_int (time_window rate_limiter);
          active_requests = filter (\<lambda>req_time. req_time > cutoff_time) request_times;
          remaining_requests = max_requests rate_limiter - int (length active_requests);
          reset = (if active_requests \<noteq> [] then
                     (case min_py active_requests of
                        Inl e \<Rightarrow> Inl e
                      | Inr oldest_request \<Rightarrow>
                          Inr (py_int (fl (oldest_request
                                           + real_of_int (time_window rate_limiter)))))
                   else Inr (py_int (fl (current_time + real_of_int (time_window rate_limiter)))))
      in case reset of
           Inl e \<Rightarrow> (Inl e, rl)
         | Inr reset_secs \<Rightarrow>
             (Inr \<lparr>client_ip = ip,
                   rate_limit =
                     \<lparr>status_max_requests = max_requests rate_limiter,
                      status_time_window = time_window rate_limiter,
                      status_requests_made = int (length active_requests),
                      status_requests_remaining = max 0 remaining_requests,
                      status_reset_time = reset_secs,
                      window_resets_in = max 0 (reset_secs - py_int current_time)\<rparr>,
                   timestamp = current_time\<rparr>,
              rl))"

subsection \<open>Vocabulary of the properties\<close>

text \<open>The stored sequence of a key: a key absent from the dictionary reads as empty.\<close>

definition stored :: "RateLimiter \<Rightarrow> string \<Rightarrow> real list" where
  "stored rl k = (case requests rl k of None \<Rightarrow> [] | Some xs \<Rightarrow> xs)"

text \<open>The stored instants of a key that lie inside the window ending at \<open>t\<close>.\<close>

definition in_window :: "RateLimiter \<Rightarrow> string \<Rightarrow> real \<Rightarrow> real list" where
  "in_window rl k t = filter (\<lambda>x. x > t - real_of_int (time_window rl)) (stored rl k)"

text \<open>Successive calls of \<open>is_allowed\<close> for one key with the clock standing still.\<close>

fun evaluate_times ::
  "nat \<Rightarrow> RateLimiter \<Rightarrow> string \<Rightarrow> real \<Rightarrow> (error + bool \<times> rate_limit_info) list \<times> RateLimiter" where
  "evaluate_times 0 rl k t = ([], rl)"
| "evaluate_times (Suc n) rl k t =
     (let (r, rl1) = is_allowed rl k t;
          (rs, rl2) = evaluate_times n rl1 k t
      in (r # rs, rl2))"

text \<open>Successive status queries for one key, one per clock reading of the list.\<close>

fun status_times :: "RateLimiter \<Rightarrow> string \<Rightarrow> real list \<Rightarrow> RateLimiter" where
  "status_times rl k [] = rl"
| "status_times rl k (t # ts) = status_times (snd (rate_limit_status rl k t)) k ts"

text \<open>
  The retry-after value as the specification words it: the distance from the clock
  reading to the oldest in-window instant plus the window, rounded to the nearest whole
  second, and at least 1.
\<close>

definition spec_retry_after :: "real \<Rightarrow> int \<Rightarrow> real \<Rightarrow> int" where
  "spec_retry_after oldest window t = max 1 (round ((oldest + real_of_int window) - t))"

section \<open>Basic facts\<close>

subsection \<open>Rounding\<close>

lemmas fl_eval = fl_def binade_def rne_def pow2_def compute_floorlog Let_def

lemma rne_bounds: "\<lfloor>y\<rfloor> \<le> rne y \<and> rne y \<le> \<lceil>y\<rceil>"
  unfolding rne_def Let_def by (auto simp: ceiling_altdef)

lemma rne_error: "\<bar>real_of_int (rne y) - y\<bar> \<le> 1 / 2"
  unfolding rne_def Let_def by (auto; linarith)

lemma fl_grid:
  assumes "x \<noteq> 0" and "\<not> 52 \<le> binade x"
  shows "\<exists>n. 0 < n \<and> fl x = real_of_int (rne (x * 2 ^ n)) / 2 ^ n"
proof -
  let ?c = "max (binade x) (- 1022) - 52"
  have c: "?c < 0" using assms(2) by simp
  then have "pow2 ?c = 1 / 2 ^ nat (- ?c)" by (simp add: pow2_def)
  moreover have "0 < nat (- ?c)" using c by simp
  ultimately show ?thesis
    using assms by (intro exI [of _ "nat (- ?c)"]) (simp add: fl_def Let_def)
qed

lemma fl_error: "\<bar>fl x - x\<bar> \<le> 1 / 4"
proof (cases "x = 0 \<or> 52 \<le> binade x")
  case True
  then show ?thesis by (simp add: fl_def)
next
  case False
  then obtain n where n: "0 < n" "fl x = real_of_int (rne (x * 2 ^ n)) / 2 ^ n"
    using fl_grid [of x] by auto
  have p: "(2::real) \<le> 2 ^ n" using n(1) by (cases n) (simp_all add: self_le_power)
  have "fl x - x = (real_of_int (rne (x * 2 ^ n)) - x * 2 ^ n) / 2 ^ n"
    by (simp add: n(2) field_simps)
  then have "\<bar>fl x - x\<bar> = \<bar>real_of_int (rne (x * 2 ^ n)) - x * 2 ^ n\<bar> / 2 ^ n"
    by (simp only: abs_divide) simp
  also have "\<dots> \<le> (1 / 2) / 2 ^ n"
    by (intro divide_right_mono rne_error) simp
  also have "\<dots> \<le> (1 / 2) / 2"
    using p by (intro divide_left_mono) simp_all
  finally show ?thesis by simp
qed

lemma fl_ge_int:
  assumes "real_of_int k \<le> x"
  shows "real_of_int k \<le> fl x"
proof (cases "x = 0 \<or> 52 \<le> binade x")
  case True
  then show ?thesis using assms by (auto simp: fl_def)
next
  case False
  then obtain n where n: "0 < n" "fl x = real_of_int (rne (x * 2 ^ n)) / 2 ^ n"
    using fl_grid [of x] by auto
  have "real_of_int (k * 2 ^ n) \<le> x * 2 ^ n" using assms by simp
  then have "k * 2 ^ n \<le> \<lfloor>x * 2 ^ n\<rfloor>" by (simp only: le_floor_iff)
  then have "k * 2 ^ n \<le> rne (x * 2 ^ n)" using rne_bounds [of "x * 2 ^ n"] by linarith
  then have "real_of_int (k * 2 ^ n) \<le> real_of_int (rne (x * 2 ^ n))" by (simp only: of_int_le_iff)
  then show ?thesis by (simp add: n(2) field_simps)
qed

lemma fl_le_int:
  assumes "x \<le> real_of_int k"
  shows "fl x \<le> real_of_int k"
proof (cases "x = 0 \<or> 52 \<le> binade x")
  case True
  then show ?thesis using assms by (auto simp: fl_def)
next
  case False
  then obtain n where n: "0 < n" "fl x = real_of_int (rne (x * 2 ^ n)) / 2 ^ n"
    using fl_grid [of x] by auto
  have "x * 2 ^ n \<le> real_of_int (k * 2 ^ n)" using assms by simp
  then have "\<lceil>x * 2 ^ n\<rceil> \<le> k * 2 ^ n" by (simp only: ceiling_le_iff)
  then have "rne (x * 2 ^ n) \<le> k * 2 ^ n" using rne_bounds [of "x * 2 ^ n"] by linarith
  then have "real_of_int (rne (x * 2 ^ n)) \<le> real_of_int (k * 2 ^ n)" by (simp only: of_int_le_iff)
  then show ?thesis by (simp add: n(2) field_simps)
qed

lemma py_int_fl_close: "\<bar>real_of_int (py_int (fl x)) - x\<bar> < 1"
proof (cases "0 \<le> fl x")
  case True
  let ?k = "\<lfloor>fl x\<rfloor>"
  have k: "py_int (fl x) = ?k" using True by (simp add: py_int_def)
  have "x < real_of_int (?k + 1)"
  proof (rule ccontr)
    assume "\<not> x < real_of_int (?k + 1)"
    then have "real_of_int (?k + 1) \<le> fl x" by (intro fl_ge_int) simp
    then show False by linarith
  qed
  moreover have "real_of_int ?k \<le> fl x" by simp
  moreover have "fl x \<le> x + 1 / 4" using fl_error [of x] by linarith
  ultimately show ?thesis by (simp add: k) linarith
next
  case False
  let ?k = "\<lceil>fl x\<rceil>"
  have k: "py_int (fl x) = ?k" using False by (simp add: py_int_def)
  have "real_of_int (?k - 1) < x"
  proof (rule ccontr)
    assume "\<not> real_of_int (?k - 1) < x"
    then have "fl x \<le> real_of_int (?k - 1)" by (intro fl_le_int) simp
    then show False by linarith
  qed
  moreover have "fl x \<le> real_of_int ?k" by simp
  moreover have "x - 1 / 4 \<le> fl x" using fl_error [of x] by linarith
  ultimately show ?thesis by (simp add: k) linarith
qed

lemma retry_bound:
  assumes "m \<le> t" and "t - real_of_int w < m"
  shows "py_int (fl (fl (m + real_of_int w) - t)) \<le> w"
proof -
  have w1: "1 \<le> w" using assms by linarith
  let ?d = "fl (m + real_of_int w) - t"
  have "?d \<le> real_of_int w + 1 / 4" using fl_error [of "m + real_of_int w"] assms(1) by linarith
  then have "fl ?d < real_of_int w + 1" using fl_error [of ?d] by linarith
  then show ?thesis using w1 unfolding py_int_def
    by (auto simp: floor_le_iff ceiling_le_iff)
qed

subsection \<open>The outcomes of a call\<close>

lemma min_py_Nil: "min_py [] = Inl ValueError"
  by (simp add: min_py_def)

lemma min_py_nonempty: "xs \<noteq> [] \<Longrightarrow> min_py xs = Inr (Min (set xs))"
  by (cases xs) (simp_all add: min_py_def Min.set_eq_fold del: set_simps)

lemma getitem_fst: "fst (getitem (requests rl) k) = stored rl k"
  by (simp add: getitem_def stored_def split: option.splits)

lemma getitem_upd:
  "(snd (getitem d k))(k \<mapsto> v) = d(k \<mapsto> v)"
  by (simp add: getitem_def split: option.splits)

text \<open>The three outcomes of \<open>is_allowed\<close>, in terms of the in-window instants.\<close>

lemma is_allowed_admit:
  assumes "int (length (in_window rl k t)) < max_requests rl"
  shows "is_allowed rl k t =
    (Inr (True,
       \<lparr>allowed = True,
        requests_made = int (length (in_window rl k t)) + 1,
        requests_remaining = max_requests rl - (int (length (in_window rl k t)) + 1),
        reset_time = py_int (fl (t + real_of_int (time_window rl))),
        retry_after = None\<rparr>),
     rl\<lparr>requests := (requests rl)(k \<mapsto> in_window rl k t @ [t])\<rparr>)"
proof -
  obtain xs d0 where g: "getitem (requests rl) k = (xs, d0)"
    by (cases "getitem (requests rl) k")
  have xs: "xs = stored rl k" using getitem_fst [of rl k] g by simp
  have d0: "d0(k \<mapsto> v) = (requests rl)(k \<mapsto> v)" for v
    using getitem_upd [of "requests rl" k v] g by simp
  show ?thesis
    using assms by (simp add: is_allowed_def g Let_def in_window_def xs [symmetric] d0)
qed

lemma is_allowed_deny:
  assumes "\<not> int (length (in_window rl k t)) < max_requests rl"
    and "in_window rl k t \<noteq> []"
  shows "is_allowed rl k t =
    (Inr (False,
       \<lparr>allowed = False,
        requests_made = int (length (in_window rl k t)),
        requests_remaining = 0,
        reset_time = py_int (fl (Min (set (in_window rl k t)) + real_of_int (time_window rl))),
        retry_after =
          Some (max 1 (py_int (fl (fl (Min (set (in_window rl k t)) + real_of_int (time_window rl)) - t))))\<rparr>),
     rl\<lparr>requests := (requests rl)(k \<mapsto> in_window rl k t)\<rparr>)"
proof -
  obtain xs d0 where g: "getitem (requests rl) k = (xs, d0)"
    by (cases "getitem (requests rl) k")
  have xs: "xs = stored rl k" using getitem_fst [of rl k] g by simp
  have d0: "d0(k \<mapsto> v) = (requests rl)(k \<mapsto> v)" for v
    using getitem_upd [of "requests rl" k v] g by simp
  have m: "min_py (filter (\<lambda>x. x > t - real_of_int (time_window rl)) xs)
             = Inr (Min (set (in_window rl k t)))"
    using min_py_nonempty [OF assms(2)] by (simp add: in_window_def xs)
  show ?thesis
    using assms(1) by (simp add: is_allowed_def g Let_def m d0) (simp add: in_window_def xs)
qed

lemma is_allowed_raise:
  assumes "\<not> int (length (in_window rl k t)) < max_requests rl"
    and "in_window rl k t = []"
  shows "is_allowed rl k t = (Inl ValueError, rl\<lparr>requests := (requests rl)(k \<mapsto> [])\<rparr>)"
proof -
  obtain xs d0 where g: "getitem (requests rl) k = (xs, d0)"
    by (cases "getitem (requests rl) k")
  have xs: "xs = stored rl k" using getitem_fst [of rl k] g by simp
  have d0: "d0(k \<mapsto> v) = (requests rl)(k \<mapsto> v)" for v
    using getitem_upd [of "requests rl" k v] g by simp
  have e: "filter (\<lambda>x. x > t - real_of_int (time_window rl)) xs = []"
    using assms(2) by (simp add: in_window_def xs)
  show ?thesis
    using assms(1) e by (simp add: is_allowed_def g Let_def d0 min_py_Nil in_window_def xs [symmetric])
qed

lemma is_allowed_outcomes:
  "(int (length (in_window rl k t)) < max_requests rl
      \<and> (\<exists>info. is_allowed rl k t =
            (Inr (True, info), rl\<lparr>requests := (requests rl)(k \<mapsto> in_window rl k t @ [t])\<rparr>)))
   \<or> (\<not> int (length (in_window rl k t)) < max_requests rl \<and> in_window rl k t \<noteq> []
      \<and> (\<exists>info. is_allowed rl k t =
            (Inr (False, info), rl\<lparr>requests := (requests rl)(k \<mapsto> in_window rl k t)\<rparr>)))
   \<or> (\<not> int (length (in_window rl k t)) < max_requests rl \<and> in_window rl k t = []
      \<and> is_allowed rl k t = (Inl ValueError, rl\<lparr>requests := (requests rl)(k \<mapsto> in_window rl k t)\<rparr>))"
proof (cases "int (length (in_window rl k t)) < max_requests rl")
  case True
  then show ?thesis using is_allowed_admit [OF True] by simp
next
  case False
  show ?thesis
  proof (cases "in_window rl k t = []")
    case True
    then show ?thesis using False is_allowed_raise [OF False True] by simp
  next
    case nonempty: False
    then show ?thesis using False is_allowed_deny [OF False nonempty] by simp
  qed
qed

lemma stored_upd_same: "stored (rl\<lparr>requests := (requests rl)(k \<mapsto> xs)\<rparr>) k = xs"
  by (simp add: stored_def)

lemma stored_upd_other: "k' \<noteq> k \<Longrightarrow> stored (rl\<lparr>requests := (requests rl)(k \<mapsto> xs)\<rparr>) k' = stored rl k'"
  by (simp add: stored_def)

lemma in_window_upd_same:
  "in_window (rl\<lparr>requests := (requests rl)(k \<mapsto> xs)\<rparr>) k t
     = filter (\<lambda>x. x > t - real_of_int (time_window rl)) xs"
  by (simp add: in_window_def stored_def)

lemma in_window_subset: "set (in_window rl k t) \<subseteq> set (stored rl k)"
  by (simp add: in_window_def)

lemma in_window_length: "length (in_window rl k t) \<le> length (stored rl k)"
  by (simp add: in_window_def)

lemma in_window_recent: "x \<in> set (in_window rl k t) \<Longrightarrow> x > t - real_of_int (time_window rl)"
  by (simp add: in_window_def)

lemma filter_in_window:
  "filter (\<lambda>x. x > t - real_of_int (time_window rl)) (in_window rl k t) = in_window rl k t"
  by (simp add: in_window_def)

lemma is_allowed_config:
  "max_requests (snd (is_allowed rl k t)) = max_requests rl
   \<and> time_window (snd (is_allowed rl k t)) = time_window rl"
  using is_allowed_outcomes [of rl k t] by auto

section \<open>Capacity\<close>

lemma is_allowed_admit_window:
  assumes "0 < time_window rl" and "int (length (in_window rl k t)) < max_requests rl"
  shows "in_window (snd (is_allowed rl k t)) k t = in_window rl k t @ [t]"
proof -
  have "t > t - real_of_int (time_window rl)" using assms(1) by simp
  then show ?thesis
    by (simp add: is_allowed_admit [OF assms(2)] in_window_upd_same filter_in_window)
qed

lemma evaluate_times_admits:
  assumes "0 < time_window rl"
    and "int (length (in_window rl k t)) + int n \<le> max_requests rl"
  shows "length (fst (evaluate_times n rl k t)) = n
    \<and> (\<forall>r \<in> set (fst (evaluate_times n rl k t)). \<exists>info. r = Inr (True, info))
    \<and> in_window (snd (evaluate_times n rl k t)) k t = in_window rl k t @ replicate n t
    \<and> max_requests (snd (evaluate_times n rl k t)) = max_requests rl
    \<and> time_window (snd (evaluate_times n rl k t)) = time_window rl"
  using assms
proof (induction n arbitrary: rl)
  case 0
  then show ?case by simp
next
  case (Suc n)
  let ?rl1 = "snd (is_allowed rl k t)"
  have lt: "int (length (in_window rl k t)) < max_requests rl" using Suc.prems(2) by simp
  have r: "is_allowed rl k t = (fst (is_allowed rl k t), ?rl1)" by simp
  have adm: "\<exists>info. fst (is_allowed rl k t) = Inr (True, info)"
    by (simp add: is_allowed_admit [OF lt])
  have w1: "in_window ?rl1 k t = in_window rl k t @ [t]"
    by (rule is_allowed_admit_window [OF Suc.prems(1) lt])
  have c1: "max_requests ?rl1 = max_requests rl" "time_window ?rl1 = time_window rl"
    using is_allowed_config [of rl k t] by simp_all
  have p1: "0 < time_window ?rl1" using c1 Suc.prems(1) by simp
  have p2: "int (length (in_window ?rl1 k t)) + int n \<le> max_requests ?rl1"
    using Suc.prems(2) by (simp add: w1 c1)
  note IH = Suc.IH [OF p1 p2]
  have unfold: "evaluate_times (Suc n) rl k t =
      (fst (is_allowed rl k t) # fst (evaluate_times n ?rl1 k t), snd (evaluate_times n ?rl1 k t))"
    by (simp add: case_prod_unfold Let_def)
  show ?case
    unfolding unfold using IH adm by (simp add: w1 c1)
qed

text \<open>
  C1. With positive limit and window: from a state with no instant of the key inside the
  window, \<open>max_requests\<close> calls at one clock reading are all admitted and the next call
  at that reading is denied; and a key that holds exactly \<open>max_requests\<close> in-window
  instants is denied (the capacity test is a strict less-than).
\<close>

theorem capacity_then_denied:
  assumes "0 < max_requests rl" and "0 < time_window rl"
  shows "(in_window rl k t = [] \<longrightarrow>
           length (fst (evaluate_times (nat (max_requests rl)) rl k t)) = nat (max_requests rl)
           \<and> (\<forall>r \<in> set (fst (evaluate_times (nat (max_requests rl)) rl k t)).
                 \<exists>info. r = Inr (True, info))
           \<and> (\<exists>info. fst (is_allowed (snd (evaluate_times (nat (max_requests rl)) rl k t)) k t)
                        = Inr (False, info)))
       \<and> (int (length (in_window rl k t)) = max_requests rl \<longrightarrow>
           (\<exists>info. fst (is_allowed rl k t) = Inr (False, info)))"
proof (intro conjI impI)
  assume full: "int (length (in_window rl k t)) = max_requests rl"
  then have "\<not> int (length (in_window rl k t)) < max_requests rl" "in_window rl k t \<noteq> []"
    using assms(1) by auto
  then show "\<exists>info. fst (is_allowed rl k t) = Inr (False, info)"
    by (simp add: is_allowed_deny)
next
  assume empty: "in_window rl k t = []"
  let ?n = "nat (max_requests rl)"
  let ?rl' = "snd (evaluate_times ?n rl k t)"
  have "int (length (in_window rl k t)) + int ?n \<le> max_requests rl"
    using assms(1) empty by simp
  note E = evaluate_times_admits [OF assms(2) this]
  from E show "length (fst (evaluate_times ?n rl k t)) = ?n" by simp
  from E show "\<forall>r \<in> set (fst (evaluate_times ?n rl k t)). \<exists>info. r = Inr (True, info)"
    by simp
  have w: "in_window ?rl' k t = replicate ?n t" using E empty by simp
  have m: "max_requests ?rl' = max_requests rl" using E by simp
  have "\<not> int (length (in_window ?rl' k t)) < max_requests ?rl'" "in_window ?rl' k t \<noteq> []"
    using assms(1) by (simp_all add: w m)
  then show "\<exists>info. fst (is_allowed ?rl' k t) = Inr (False, info)"
    by (simp add: is_allowed_deny)
qed

theorem capacity_then_denied_witness:
  "0 < max_requests RateLimiter_init \<and> 0 < time_window RateLimiter_init
   \<and> in_window RateLimiter_init ''1.2.3.4'' 0 = []
   \<and> (\<exists>info. fst (is_allowed (snd (evaluate_times 5 RateLimiter_init ''1.2.3.4'' 0)) ''1.2.3.4'' 0)
                = Inr (False, info))
   \<and> int (length (in_window
          \<lparr>requests = [''1.2.3.4'' \<mapsto> [0, 0, 0, 0, 0]], max_requests = 5, time_window = 60\<rparr>
          ''1.2.3.4'' 0)) = 5
   \<and> (\<exists>info. fst (is_allowed
          \<lparr>requests = [''1.2.3.4'' \<mapsto> [0, 0, 0, 0, 0]], max_requests = 5, time_window = 60\<rparr>
          ''1.2.3.4'' 0) = Inr (False, info))"
  using capacity_then_denied [of RateLimiter_init "''1.2.3.4''" 0]
    capacity_then_denied
      [of "\<lparr>requests = [''1.2.3.4'' \<mapsto> [0, 0, 0, 0, 0]], max_requests = 5, time_window = 60\<rparr>"
          "''1.2.3.4''" 0]
  by (simp add: RateLimiter_init_def in_window_def stored_def)

section \<open>Sliding eviction\<close>

text \<open>
  C2. When the stored sequence of a key holds \<open>max_requests\<close> instants and its oldest
  instant is at or before \<open>now - time_window\<close>, the next call is admitted: it counts only
  the instants after \<open>now - time_window\<close>, and stores those followed by \<open>now\<close>.
\<close>

theorem sliding_eviction_admits:
  assumes "int (length (stored rl k)) = max_requests rl"
    and "min_py (stored rl k) = Inr oldest"
    and "oldest \<le> t - real_of_int (time_window rl)"
  shows "(\<exists>info. fst (is_allowed rl k t) = Inr (True, info)
            \<and> requests_made info = int (length (in_window rl k t)) + 1)
       \<and> stored (snd (is_allowed rl k t)) k = in_window rl k t @ [t]
       \<and> (\<forall>x \<in> set (in_window rl k t). t - real_of_int (time_window rl) < x)
       \<and> oldest \<notin> set (in_window rl k t)"
proof -
  have ne: "stored rl k \<noteq> []" using assms(2) by (auto simp: min_py_Nil)
  then have "oldest = Min (set (stored rl k))"
    using assms(2) min_py_nonempty [OF ne] by simp
  then have mem: "oldest \<in> set (stored rl k)" using ne by simp
  have "length (filter (\<lambda>x. x > t - real_of_int (time_window rl)) (stored rl k))
          < length (stored rl k)"
    by (rule length_filter_less [OF mem]) (use assms(3) in simp)
  then have lt: "int (length (in_window rl k t)) < max_requests rl"
    using assms(1) by (simp add: in_window_def)
  show ?thesis
    using assms(3) by (auto simp: is_allowed_admit [OF lt] stored_upd_same in_window_recent
        dest: in_window_recent)
qed

theorem sliding_eviction_admits_witness:
  "int (length (stored
      \<lparr>requests = [''1.2.3.4'' \<mapsto> [0, 10, 20, 30, 40]], max_requests = 5, time_window = 60\<rparr>
      ''1.2.3.4'')) = 5
   \<and> min_py [0, 10, 20, 30, 40] = Inr 0
   \<and> (0::real) \<le> 61 - 60
   \<and> stored (snd (is_allowed
        \<lparr>requests = [''1.2.3.4'' \<mapsto> [0, 10, 20, 30, 40]], max_requests = 5, time_window = 60\<rparr>
        ''1.2.3.4'' 61)) ''1.2.3.4'' = [10, 20, 30, 40, 61]"
  using sliding_eviction_admits
    [of "\<lparr>requests = [''1.2.3.4'' \<mapsto> [0, 10, 20, 30, 40]], max_requests = 5, time_window = 60\<rparr>"
        "''1.2.3.4''" 0 61]
  by (simp add: in_window_def stored_def min_py_def)

section \<open>The information returned on denial\<close>

lemma denied_info_eq:
  assumes "fst (is_allowed rl k t) = Inr (False, info)"
  shows "in_window rl k t \<noteq> [] \<and>
    info = \<lparr>allowed = False,
        requests_made = int (length (in_window rl k t)),
        requests_remaining = 0,
        reset_time = py_int (fl (Min (set (in_window rl k t)) + real_of_int (time_window rl))),
        retry_after =
          Some (max 1 (py_int (fl (fl (Min (set (in_window rl k t)) + real_of_int (time_window rl)) - t))))\<rparr>"
proof (cases "int (length (in_window rl k t)) < max_requests rl")
  case True
  then show ?thesis using assms by (simp add: is_allowed_admit)
next
  case False
  show ?thesis
  proof (cases "in_window rl k t = []")
    case True
    then show ?thesis using assms False by (simp add: is_allowed_raise)
  next
    case nonempty: False
    then show ?thesis using assms by (simp add: is_allowed_deny [OF False nonempty])
  qed
qed

text \<open>
  C3, as amended. A denial reports the number of in-window instants as
  \<open>requests_made\<close> and 0 as \<open>requests_remaining\<close>. Its \<open>reset_time\<close> is the float sum
  of the oldest in-window instant and the window, truncated toward zero to whole seconds.
  Its \<open>retry_after\<close> is the greater of 1 and the float difference of that sum and the
  clock reading, truncated toward zero (not rounded to the nearest whole number); so
  \<open>retry_after\<close> is at least 1.
\<close>

theorem denial_info:
  assumes "fst (is_allowed rl k t) = Inr (False, info)"
  shows "in_window rl k t \<noteq> []
       \<and> allowed info = False
       \<and> requests_made info = int (length (in_window rl k t))
       \<and> requests_remaining info = 0
       \<and> min_py (in_window rl k t) = Inr (Min (set (in_window rl k t)))
       \<and> reset_time info = py_int (fl (Min (set (in_window rl k t)) + real_of_int (time_window rl)))
       \<and> retry_after info =
           Some (max 1 (py_int (fl (fl (Min (set (in_window rl k t)) + real_of_int (time_window rl)) - t))))
       \<and> (\<exists>r. retry_after info = Some r \<and> 1 \<le> r)"
  using denied_info_eq [OF assms] by (simp add: min_py_nonempty)

theorem denial_info_witness:
  "fst (is_allowed
      \<lparr>requests = [''1.2.3.4'' \<mapsto> [4 - 1 / 2 ^ 51, 4 - 1 / 2 ^ 51, 4 - 1 / 2 ^ 51,
                                     4 - 1 / 2 ^ 51, 4 - 1 / 2 ^ 51]],
         max_requests = 5, time_window = 60\<rparr>
      ''1.2.3.4'' 4)
     = Inr (False, \<lparr>allowed = False, requests_made = 5, requests_remaining = 0,
                     reset_time = 64, retry_after = Some 60\<rparr>)
   \<and> in_window
        \<lparr>requests = [''1.2.3.4'' \<mapsto> [4 - 1 / 2 ^ 51, 4 - 1 / 2 ^ 51, 4 - 1 / 2 ^ 51,
                                       4 - 1 / 2 ^ 51, 4 - 1 / 2 ^ 51]],
           max_requests = 5, time_window = 60\<rparr>
        ''1.2.3.4'' 4 \<noteq> []
   \<and> (\<exists>r. retry_after \<lparr>allowed = False, requests_made = 5, requests_remaining = 0,
                         reset_time = 64, retry_after = Some 60\<rparr> = Some r \<and> 1 \<le> r)
   \<and> fst (is_allowed
      \<lparr>requests = [''1.2.3.4'' \<mapsto> [2147483589 - 1 / 2 ^ 22, 2147483589 - 1 / 2 ^ 22,
                                     2147483589 - 1 / 2 ^ 22, 2147483589 - 1 / 2 ^ 22,
                                     2147483589 - 1 / 2 ^ 22]],
         max_requests = 5, time_window = 60\<rparr>
      ''1.2.3.4'' 2147483590)
     = Inr (False, \<lparr>allowed = False, requests_made = 5, requests_remaining = 0,
                     reset_time = 2147483649, retry_after = Some 59\<rparr>)
   \<and> in_window
        \<lparr>requests = [''1.2.3.4'' \<mapsto> [2147483589 - 1 / 2 ^ 22, 2147483589 - 1 / 2 ^ 22,
                                       2147483589 - 1 / 2 ^ 22, 2147483589 - 1 / 2 ^ 22,
                                       2147483589 - 1 / 2 ^ 22]],
           max_requests = 5, time_window = 60\<rparr>
        ''1.2.3.4'' 2147483590 \<noteq> []"
proof -
  let ?a = "\<lparr>requests = [''1.2.3.4'' \<mapsto> [4 - 1 / 2 ^ 51, 4 - 1 / 2 ^ 51, 4 - 1 / 2 ^ 51,
                                           4 - 1 / 2 ^ 51, 4 - 1 / 2 ^ 51 :: real]],
             max_requests = 5, time_window = 60\<rparr>"
  let ?b = "\<lparr>requests = [''1.2.3.4'' \<mapsto> [2147483589 - 1 / 2 ^ 22, 2147483589 - 1 / 2 ^ 22,
                                           2147483589 - 1 / 2 ^ 22, 2147483589 - 1 / 2 ^ 22,
                                           2147483589 - 1 / 2 ^ 22 :: real]],
             max_requests = 5, time_window = 60\<rparr>"
  have run_a: "fst (is_allowed ?a ''1.2.3.4'' 4)
     = Inr (False, \<lparr>allowed = False, requests_made = 5, requests_remaining = 0,
                     reset_time = 64, retry_after = Some 60\<rparr>)"
    by (simp add: is_allowed_def getitem_def min_py_def py_int_def fl_eval)
  have run_b: "fst (is_allowed ?b ''1.2.3.4'' 2147483590)
     = Inr (False, \<lparr>allowed = False, requests_made = 5, requests_remaining = 0,
                     reset_time = 2147483649, retry_after = Some 59\<rparr>)"
    by (simp add: is_allowed_def getitem_def min_py_def py_int_def fl_eval)
  show ?thesis using denial_info [OF run_a] denial_info [OF run_b] run_a run_b by simp
qed

text \<open>
  Five instants at 0 and a call at 0.4: the source answers \<open>retry_after = 59\<close>, the
  truncation of 59.6, where rounding gives 60.
\<close>

theorem denial_retry_after_not_rounded:
  "fst (is_allowed
      \<lparr>requests = [''1.2.3.4'' \<mapsto> [0, 0, 0, 0, 0]], max_requests = 5, time_window = 60\<rparr>
      ''1.2.3.4'' (2 / 5))
     = Inr (False, \<lparr>allowed = False, requests_made = 5, requests_remaining = 0,
                     reset_time = 60, retry_after = Some 59\<rparr>)
   \<and> Min (set (in_window
        \<lparr>requests = [''1.2.3.4'' \<mapsto> [0, 0, 0, 0, 0]], max_requests = 5, time_window = 60\<rparr>
        ''1.2.3.4'' (2 / 5))) = 0
   \<and> spec_retry_after 0 60 (2 / 5) = 60"
  by (simp add: is_allowed_def getitem_def min_py_def py_int_def in_window_def stored_def
      spec_retry_after_def round_def fl_eval)

section \<open>The status query and the stored state\<close>

lemma stored_getitem: "stored (rl\<lparr>requests := snd (getitem (requests rl) k)\<rparr>) k' = stored rl k'"
  by (simp add: stored_def getitem_def split: option.splits)

lemma rate_limit_status_eq:
  "rate_limit_status rl k t =
    (Inr \<lparr>client_ip = k,
          rate_limit =
            \<lparr>status_max_requests = max_requests rl,
             status_time_window = time_window rl,
             status_requests_made = int (length (in_window rl k t)),
             status_requests_remaining = max 0 (max_requests rl - int (length (in_window rl k t))),
             status_reset_time =
               (if in_window rl k t \<noteq> []
                then py_int (fl (Min (set (in_window rl k t)) + real_of_int (time_window rl)))
                else py_int (fl (t + real_of_int (time_window rl)))),
             window_resets_in =
               max 0 ((if in_window rl k t \<noteq> []
                       then py_int (fl (Min (set (in_window rl k t)) + real_of_int (time_window rl)))
                       else py_int (fl (t + real_of_int (time_window rl)))) - py_int t)\<rparr>,
          timestamp = t\<rparr>,
     rl\<lparr>requests := snd (getitem (requests rl) k)\<rparr>)"
proof -
  obtain xs d0 where g: "getitem (requests rl) k = (xs, d0)"
    by (cases "getitem (requests rl) k")
  have xs: "xs = stored rl k" using getitem_fst [of rl k] g by simp
  have w: "filter (\<lambda>x. x > t - real_of_int (time_window rl)) xs = in_window rl k t"
    by (simp add: in_window_def xs)
  show ?thesis
  proof (cases "in_window rl k t = []")
    case True
    then show ?thesis by (simp add: rate_limit_status_def g Let_def w)
  next
    case False
    then show ?thesis
      by (simp add: rate_limit_status_def g Let_def w min_py_nonempty [OF False])
  qed
qed

lemma is_allowed_after_status:
  "is_allowed (snd (rate_limit_status rl k t')) k t = is_allowed rl k t"
proof -
  let ?rl' = "rl\<lparr>requests := snd (getitem (requests rl) k)\<rparr>"
  have st: "in_window ?rl' k t = in_window rl k t"
    by (simp add: in_window_def stored_getitem)
  have "is_allowed ?rl' k t = is_allowed rl k t"
  proof (cases "int (length (in_window rl k t)) < max_requests rl")
    case True
    then have "int (length (in_window ?rl' k t)) < max_requests ?rl'" by (simp add: st)
    from is_allowed_admit [OF this] is_allowed_admit [OF True] show ?thesis
      by (simp add: st getitem_upd)
  next
    case False
    then have F': "\<not> int (length (in_window ?rl' k t)) < max_requests ?rl'" by (simp add: st)
    show ?thesis
    proof (cases "in_window rl k t = []")
      case True
      then have "in_window ?rl' k t = []" by (simp add: st)
      from is_allowed_raise [OF F' this] is_allowed_raise [OF False True] show ?thesis
        by (simp add: getitem_upd)
    next
      case nonempty: False
      then have "in_window ?rl' k t \<noteq> []" by (simp add: st)
      from is_allowed_deny [OF F' this] is_allowed_deny [OF False nonempty] show ?thesis
        by (simp add: st getitem_upd)
    qed
  qed
  then show ?thesis by (simp add: rate_limit_status_eq)
qed

lemma stored_after_status: "stored (snd (rate_limit_status rl k t)) k' = stored rl k'"
  by (simp add: rate_limit_status_eq stored_getitem)

text \<open>
  C4. Status queries for a key, however many and at whatever clock readings, leave the
  stored sequence of the key as it was (nothing is appended), and the next
  \<open>is_allowed\<close> for the key returns the same result, and leaves the same limiter, as if
  the queries had not happened.
\<close>

theorem status_never_changes_evaluate:
  "stored (status_times rl k ts) k = stored rl k
   \<and> is_allowed (status_times rl k ts) k t = is_allowed rl k t"
proof (induction ts arbitrary: rl)
  case Nil
  show ?case by simp
next
  case (Cons t' ts)
  show ?case
    using Cons.IH [of "snd (rate_limit_status rl k t')"]
    by (simp add: is_allowed_after_status stored_after_status)
qed

theorem status_never_changes_evaluate_witness:
  "stored (status_times
      \<lparr>requests = [''1.2.3.4'' \<mapsto> [0, 30]], max_requests = 5, time_window = 60\<rparr>
      ''1.2.3.4'' [10, 100, 200]) ''1.2.3.4'' = [0, 30]
   \<and> is_allowed (status_times
        \<lparr>requests = [''1.2.3.4'' \<mapsto> [0, 30]], max_requests = 5, time_window = 60\<rparr>
        ''1.2.3.4'' [10, 100, 200]) ''1.2.3.4'' 61
     = is_allowed
        \<lparr>requests = [''1.2.3.4'' \<mapsto> [0, 30]], max_requests = 5, time_window = 60\<rparr>
        ''1.2.3.4'' 61"
  using status_never_changes_evaluate
    [of "\<lparr>requests = [''1.2.3.4'' \<mapsto> [0, 30]], max_requests = 5, time_window = 60\<rparr>"
        "''1.2.3.4''" "[10, 100, 200]" 61]
  by (simp add: stored_def)

lemma stored_after_is_allowed:
  "stored (snd (is_allowed rl k t)) k =
     (if int (length (in_window rl k t)) < max_requests rl
      then in_window rl k t @ [t] else in_window rl k t)"
  using is_allowed_outcomes [of rl k t] by (auto simp: stored_upd_same)

text \<open>
  C5, as amended. With a positive window, every instant in the stored sequence of a key
  after \<open>is_allowed\<close> for that key is after \<open>now - time_window\<close>. The status query
  filters a local copy only: the stored sequence after it is the one before it, and the
  query counts the in-window instants of that sequence.
\<close>

theorem no_stale_after_is_allowed:
  assumes "0 < time_window rl"
  shows "(\<forall>x \<in> set (stored (snd (is_allowed rl k t)) k). t - real_of_int (time_window rl) < x)
       \<and> stored (snd (rate_limit_status rl k t)) k = stored rl k
       \<and> (\<exists>resp. fst (rate_limit_status rl k t) = Inr resp
             \<and> status_requests_made (rate_limit resp) = int (length (in_window rl k t)))"
proof -
  have "t - real_of_int (time_window rl) < t" using assms by simp
  then have "\<forall>x \<in> set (stored (snd (is_allowed rl k t)) k). t - real_of_int (time_window rl) < x"
    by (auto simp: stored_after_is_allowed dest: in_window_recent)
  then show ?thesis
    by (simp add: stored_after_status) (simp add: rate_limit_status_eq)
qed

theorem no_stale_after_is_allowed_witness:
  "0 < time_window \<lparr>requests = [''1.2.3.4'' \<mapsto> [0, 50]], max_requests = 5, time_window = 60\<rparr>
   \<and> stored (snd (is_allowed
          \<lparr>requests = [''1.2.3.4'' \<mapsto> [0, 50]], max_requests = 5, time_window = 60\<rparr>
          ''1.2.3.4'' 100)) ''1.2.3.4'' = [50, 100]
   \<and> (100 - real_of_int 60 < 50 \<and> 100 - real_of_int 60 < 100)
   \<and> stored (snd (rate_limit_status
          \<lparr>requests = [''1.2.3.4'' \<mapsto> [0, 50]], max_requests = 5, time_window = 60\<rparr>
          ''1.2.3.4'' 100)) ''1.2.3.4'' = [0, 50]"
proof -
  let ?rl = "\<lparr>requests = [''1.2.3.4'' \<mapsto> [0, 50]], max_requests = 5, time_window = 60\<rparr>"
  have run: "stored (snd (is_allowed ?rl ''1.2.3.4'' 100)) ''1.2.3.4'' = [50, 100]"
    by (simp add: is_allowed_def getitem_def stored_def)
  show ?thesis
    using no_stale_after_is_allowed [of ?rl "''1.2.3.4''" 100] run
    by (simp add: stored_def)
qed

text \<open>
  One stored instant at 0 and a status query at 100, window 60: the instant is still
  stored after the query, although it is not after 100 - 60.
\<close>

theorem status_keeps_stale_entry:
  "stored (snd (rate_limit_status
      \<lparr>requests = [''1.2.3.4'' \<mapsto> [0]], max_requests = 5, time_window = 60\<rparr>
      ''1.2.3.4'' 100)) ''1.2.3.4'' = [0]
   \<and> \<not> (100 - real_of_int (time_window
      \<lparr>requests = [''1.2.3.4'' \<mapsto> [0]], max_requests = 5, time_window = 60\<rparr>) < 0)"
  by (simp add: rate_limit_status_def getitem_def stored_def py_int_def fl_eval)

section \<open>Independence of keys\<close>

lemma is_allowed_fst_cong:
  assumes "stored rl1 k = stored rl2 k"
    and "max_requests rl1 = max_requests rl2"
    and "time_window rl1 = time_window rl2"
  shows "fst (is_allowed rl1 k t) = fst (is_allowed rl2 k t)"
proof -
  have w: "in_window rl1 k t = in_window rl2 k t" using assms by (simp add: in_window_def)
  show ?thesis
  proof (cases "int (length (in_window rl2 k t)) < max_requests rl2")
    case True
    then have "int (length (in_window rl1 k t)) < max_requests rl1" using assms by (simp add: w)
    from is_allowed_admit [OF this] is_allowed_admit [OF True] show ?thesis
      using assms by (simp add: w)
  next
    case False
    then have F1: "\<not> int (length (in_window rl1 k t)) < max_requests rl1"
      using assms by (simp add: w)
    show ?thesis
    proof (cases "in_window rl2 k t = []")
      case True
      then have "in_window rl1 k t = []" by (simp add: w)
      from is_allowed_raise [OF F1 this] is_allowed_raise [OF False True] show ?thesis by simp
    next
      case nonempty: False
      then have "in_window rl1 k t \<noteq> []" by (simp add: w)
      from is_allowed_deny [OF F1 this] is_allowed_deny [OF False nonempty] show ?thesis
        using assms by (simp add: w)
    qed
  qed
qed

lemma rate_limit_status_fst_cong:
  assumes "stored rl1 k = stored rl2 k"
    and "max_requests rl1 = max_requests rl2"
    and "time_window rl1 = time_window rl2"
  shows "fst (rate_limit_status rl1 k t) = fst (rate_limit_status rl2 k t)"
proof -
  have w: "in_window rl1 k t = in_window rl2 k t" using assms by (simp add: in_window_def)
  show ?thesis using assms by (simp add: rate_limit_status_eq w)
qed

lemma is_allowed_other_key:
  assumes "a \<noteq> b"
  shows "requests (snd (is_allowed rl a t)) b = requests rl b"
  using is_allowed_outcomes [of rl a t] assms by auto

text \<open>
  C6. For distinct keys A and B, \<open>is_allowed\<close> for A leaves the dictionary entry and
  the stored sequence of B as they were, and a following \<open>is_allowed\<close> or status query
  for B, at any clock reading, returns what it would have returned without the call for A.
\<close>

theorem key_independence:
  assumes "a \<noteq> b"
  shows "requests (snd (is_allowed rl a t)) b = requests rl b
       \<and> stored (snd (is_allowed rl a t)) b = stored rl b
       \<and> fst (is_allowed (snd (is_allowed rl a t)) b t') = fst (is_allowed rl b t')
       \<and> fst (rate_limit_status (snd (is_allowed rl a t)) b t') = fst (rate_limit_status rl b t')"
proof -
  have r: "requests (snd (is_allowed rl a t)) b = requests rl b"
    by (rule is_allowed_other_key [OF assms])
  then have s: "stored (snd (is_allowed rl a t)) b = stored rl b" by (simp add: stored_def)
  have c: "max_requests (snd (is_allowed rl a t)) = max_requests rl"
    "time_window (snd (is_allowed rl a t)) = time_window rl"
    using is_allowed_config [of rl a t] by simp_all
  show ?thesis
    using r s is_allowed_fst_cong [OF s c] rate_limit_status_fst_cong [OF s c] by simp
qed

theorem key_independence_witness:
  "''A'' \<noteq> ''B''
   \<and> stored (snd (is_allowed
        \<lparr>requests = [''A'' \<mapsto> [1, 2, 3, 4, 5], ''B'' \<mapsto> [1, 2, 3]], max_requests = 5, time_window = 60\<rparr>
        ''A'' 6)) ''B'' = [1, 2, 3]
   \<and> fst (is_allowed (snd (is_allowed
        \<lparr>requests = [''A'' \<mapsto> [1, 2, 3, 4, 5], ''B'' \<mapsto> [1, 2, 3]], max_requests = 5, time_window = 60\<rparr>
        ''A'' 6)) ''B'' 7)
     = Inr (True, \<lparr>allowed = True, requests_made = 4, requests_remaining = 1,
                    reset_time = 67, retry_after = None\<rparr>)"
proof -
  have run: "fst (is_allowed
        \<lparr>requests = [''A'' \<mapsto> [1, 2, 3, 4, 5], ''B'' \<mapsto> [1, 2, 3]], max_requests = 5, time_window = 60\<rparr>
        ''B'' 7)
     = Inr (True, \<lparr>allowed = True, requests_made = 4, requests_remaining = 1,
                    reset_time = 67, retry_after = None\<rparr>)"
    by (simp add: is_allowed_def getitem_def py_int_def fl_eval)
  have ne: "''A'' \<noteq> ''B''" by simp
  show ?thesis
    using key_independence [OF ne,
        of "\<lparr>requests = [''A'' \<mapsto> [1, 2, 3, 4, 5], ''B'' \<mapsto> [1, 2, 3]], max_requests = 5, time_window = 60\<rparr>"
        6 7] run
    by (simp add: stored_def)
qed

section \<open>Growth of the stored sequence\<close>

text \<open>
  C7. If the stored sequence of a key holds at most \<open>max_requests\<close> instants before
  \<open>is_allowed\<close> for that key, it holds at most \<open>max_requests\<close> instants after it.
\<close>

theorem stored_length_bounded:
  assumes "int (length (stored rl k)) \<le> max_requests rl"
  shows "int (length (stored (snd (is_allowed rl k t)) k)) \<le> max_requests (snd (is_allowed rl k t))"
proof -
  have "int (length (in_window rl k t)) \<le> max_requests rl"
    using assms in_window_length [of rl k t] by simp
  moreover have "max_requests (snd (is_allowed rl k t)) = max_requests rl"
    using is_allowed_config [of rl k t] by simp
  ultimately show ?thesis by (simp add: stored_after_is_allowed)
qed

theorem stored_length_bounded_witness:
  "int (length (stored
      \<lparr>requests = [''1.2.3.4'' \<mapsto> [0, 0, 0, 0, 0]], max_requests = 5, time_window = 60\<rparr>
      ''1.2.3.4'')) \<le> 5
   \<and> int (length (stored (snd (is_allowed
      \<lparr>requests = [''1.2.3.4'' \<mapsto> [0, 0, 0, 0, 0]], max_requests = 5, time_window = 60\<rparr>
      ''1.2.3.4'' 1)) ''1.2.3.4''))
     \<le> max_requests (snd (is_allowed
      \<lparr>requests = [''1.2.3.4'' \<mapsto> [0, 0, 0, 0, 0]], max_requests = 5, time_window = 60\<rparr>
      ''1.2.3.4'' 1))"
  using stored_length_bounded
    [of "\<lparr>requests = [''1.2.3.4'' \<mapsto> [0, 0, 0, 0, 0]], max_requests = 5, time_window = 60\<rparr>"
        "''1.2.3.4''" 1]
  by (simp add: stored_def)

text \<open>
  C8. \<open>is_allowed\<close> stores, for its key, the in-window instants followed by the clock
  reading when it admits, and the in-window instants alone when it denies; nothing else
  of the limiter changes. With a positive limit it always returns a verdict.
\<close>

theorem append_only_on_admit:
  "(\<forall>info. fst (is_allowed rl k t) = Inr (True, info) \<longrightarrow>
       snd (is_allowed rl k t) = rl\<lparr>requests := (requests rl)(k \<mapsto> in_window rl k t @ [t])\<rparr>
       \<and> stored (snd (is_allowed rl k t)) k = in_window rl k t @ [t])
   \<and> (\<forall>info. fst (is_allowed rl k t) = Inr (False, info) \<longrightarrow>
       snd (is_allowed rl k t) = rl\<lparr>requests := (requests rl)(k \<mapsto> in_window rl k t)\<rparr>
       \<and> stored (snd (is_allowed rl k t)) k = in_window rl k t)
   \<and> (0 < max_requests rl \<longrightarrow> (\<exists>verdict info. fst (is_allowed rl k t) = Inr (verdict, info)))"
proof -
  consider (admit) "int (length (in_window rl k t)) < max_requests rl"
    | (deny) "\<not> int (length (in_window rl k t)) < max_requests rl" "in_window rl k t \<noteq> []"
    | (raise) "\<not> int (length (in_window rl k t)) < max_requests rl" "in_window rl k t = []"
    by blast
  then show ?thesis
  proof cases
    case admit
    then show ?thesis by (auto simp: is_allowed_admit stored_upd_same)
  next
    case deny
    then show ?thesis by (auto simp: is_allowed_deny stored_upd_same)
  next
    case raise
    then have "\<not> 0 < max_requests rl" by simp
    then show ?thesis using raise by (simp add: is_allowed_raise)
  qed
qed

theorem append_only_on_admit_witness:
  "fst (is_allowed
      \<lparr>requests = [''A'' \<mapsto> [1, 2, 3, 4, 5], ''B'' \<mapsto> [1, 2, 3]], max_requests = 5, time_window = 60\<rparr>
      ''B'' 62)
     = Inr (True, \<lparr>allowed = True, requests_made = 2, requests_remaining = 3,
                    reset_time = 122, retry_after = None\<rparr>)
   \<and> stored (snd (is_allowed
      \<lparr>requests = [''A'' \<mapsto> [1, 2, 3, 4, 5], ''B'' \<mapsto> [1, 2, 3]], max_requests = 5, time_window = 60\<rparr>
      ''B'' 62)) ''B'' = [3, 62]
   \<and> fst (is_allowed
      \<lparr>requests = [''A'' \<mapsto> [1, 2, 3, 4, 5], ''B'' \<mapsto> [1, 2, 3]], max_requests = 5, time_window = 60\<rparr>
      ''A'' 6)
     = Inr (False, \<lparr>allowed = False, requests_made = 5, requests_remaining = 0,
                     reset_time = 61, retry_after = Some 55\<rparr>)
   \<and> stored (snd (is_allowed
      \<lparr>requests = [''A'' \<mapsto> [1, 2, 3, 4, 5], ''B'' \<mapsto> [1, 2, 3]], max_requests = 5, time_window = 60\<rparr>
      ''A'' 6)) ''A'' = [1, 2, 3, 4, 5]
   \<and> (0::int) < 5"
proof -
  let ?rl = "\<lparr>requests = [''A'' \<mapsto> [1, 2, 3, 4, 5], ''B'' \<mapsto> [1, 2, 3]],
              max_requests = 5, time_window = 60\<rparr>"
  have admit: "fst (is_allowed ?rl ''B'' 62)
     = Inr (True, \<lparr>allowed = True, requests_made = 2, requests_remaining = 3,
                    reset_time = 122, retry_after = None\<rparr>)"
    by (simp add: is_allowed_def getitem_def py_int_def fl_eval)
  have deny: "fst (is_allowed ?rl ''A'' 6)
     = Inr (False, \<lparr>allowed = False, requests_made = 5, requests_remaining = 0,
                     reset_time = 61, retry_after = Some 55\<rparr>)"
    by (simp add: is_allowed_def getitem_def py_int_def min_py_def fl_eval)
  show ?thesis
    using append_only_on_admit [of ?rl "''B''" 62] append_only_on_admit [of ?rl "''A''" 6]
      admit deny
    by (simp add: in_window_def stored_def)
qed

section \<open>The status report\<close>

text \<open>
  C9, as amended. The status query reports the number \<open>n\<close> of in-window instants as
  \<open>requests_made\<close> and \<open>max 0 (max_requests - n)\<close> as \<open>requests_remaining\<close>. Its
  \<open>reset_time\<close> is a float sum truncated toward zero to whole seconds: of the oldest
  in-window instant and the window when \<open>n > 0\<close>, of the clock reading and the window when
  \<open>n = 0\<close>. Its \<open>window_resets_in\<close> is the greater of 0 and \<open>reset_time\<close> less the clock
  reading truncated toward zero. For a key never seen, with a limit that is not negative,
  it reports 0 requests made, \<open>max_requests\<close> remaining and a reset time less than a
  second from the clock reading plus the window.
\<close>

theorem status_report:
  "\<exists>resp. fst (rate_limit_status rl k t) = Inr resp
     \<and> status_requests_made (rate_limit resp) = int (length (in_window rl k t))
     \<and> status_requests_remaining (rate_limit resp)
         = max 0 (max_requests rl - int (length (in_window rl k t)))
     \<and> (in_window rl k t \<noteq> [] \<longrightarrow>
          status_reset_time (rate_limit resp)
            = py_int (fl (Min (set (in_window rl k t)) + real_of_int (time_window rl))))
     \<and> (in_window rl k t = [] \<longrightarrow>
          status_reset_time (rate_limit resp) = py_int (fl (t + real_of_int (time_window rl))))
     \<and> window_resets_in (rate_limit resp)
         = max 0 (status_reset_time (rate_limit resp) - py_int t)
     \<and> (requests rl k = None \<and> 0 \<le> max_requests rl \<longrightarrow>
          status_requests_made (rate_limit resp) = 0
          \<and> status_requests_remaining (rate_limit resp) = max_requests rl
          \<and> status_reset_time (rate_limit resp) = py_int (fl (t + real_of_int (time_window rl)))
          \<and> \<bar>real_of_int (status_reset_time (rate_limit resp))
               - (t + real_of_int (time_window rl))\<bar> < 1)"
proof -
  have "requests rl k = None \<Longrightarrow> in_window rl k t = []"
    by (simp add: in_window_def stored_def)
  then show ?thesis
    using py_int_fl_close [of "t + real_of_int (time_window rl)"]
    by (auto simp: rate_limit_status_eq)
qed

theorem status_report_witness:
  "in_window \<lparr>requests = [''1.2.3.4'' \<mapsto> [4 - 1 / 2 ^ 51, 10]], max_requests = 5, time_window = 60\<rparr>
      ''1.2.3.4'' 20 \<noteq> []
   \<and> in_window RateLimiter_init ''9.9.9.9'' (2147483589 - 1 / 2 ^ 22) = []
   \<and> requests RateLimiter_init ''9.9.9.9'' = None \<and> 0 \<le> max_requests RateLimiter_init
   \<and> (\<exists>resp. fst (rate_limit_status
          \<lparr>requests = [''1.2.3.4'' \<mapsto> [4 - 1 / 2 ^ 51, 10]], max_requests = 5, time_window = 60\<rparr>
          ''1.2.3.4'' 20) = Inr resp
        \<and> status_requests_made (rate_limit resp) = 2
        \<and> status_requests_remaining (rate_limit resp) = 3
        \<and> status_reset_time (rate_limit resp) = 64
        \<and> window_resets_in (rate_limit resp) = 44)
   \<and> (\<exists>resp. fst (rate_limit_status RateLimiter_init ''9.9.9.9'' (2147483589 - 1 / 2 ^ 22))
          = Inr resp
        \<and> status_requests_made (rate_limit resp) = 0
        \<and> status_requests_remaining (rate_limit resp) = 5
        \<and> status_reset_time (rate_limit resp) = 2147483649
        \<and> window_resets_in (rate_limit resp) = 61)"
  using status_report
      [of "\<lparr>requests = [''1.2.3.4'' \<mapsto> [4 - 1 / 2 ^ 51, 10]], max_requests = 5, time_window = 60\<rparr>"
          "''1.2.3.4''" 20]
    status_report [of RateLimiter_init "''9.9.9.9''" "2147483589 - 1 / 2 ^ 22"]
  by (auto simp: RateLimiter_init_def in_window_def stored_def py_int_def fl_eval)

text \<open>
  One stored instant at 0.25 and a status query at 1.75, so that \<open>n = 1\<close>: the source
  reports \<open>reset_time = 60\<close> and \<open>window_resets_in = 59\<close>, where the oldest instant plus
  the window is 60.25, and the greater of 0 and the reset time less the clock reading is
  58.5 if the reset time is 60.25 and 58.25 if it is the reported 60.
\<close>

theorem status_reset_time_truncated:
  "fst (rate_limit_status
      \<lparr>requests = [''1.2.3.4'' \<mapsto> [1 / 4]], max_requests = 5, time_window = 60\<rparr>
      ''1.2.3.4'' (7 / 4))
     = Inr \<lparr>client_ip = ''1.2.3.4'',
            rate_limit = \<lparr>status_max_requests = 5, status_time_window = 60,
                          status_requests_made = 1, status_requests_remaining = 4,
                          status_reset_time = 60, window_resets_in = 59\<rparr>,
            timestamp = 7 / 4\<rparr>
   \<and> in_window \<lparr>requests = [''1.2.3.4'' \<mapsto> [1 / 4]], max_requests = 5, time_window = 60\<rparr>
        ''1.2.3.4'' (7 / 4) = [1 / 4]
   \<and> real_of_int 60 \<noteq> 1 / 4 + real_of_int 60
   \<and> real_of_int 59 \<noteq> max 0 ((1 / 4 + real_of_int 60) - 7 / 4)
   \<and> real_of_int 59 \<noteq> max 0 (real_of_int 60 - 7 / 4)"
  by (simp add: rate_limit_status_def getitem_def min_py_def py_int_def in_window_def
      stored_def fl_eval)

section \<open>An upper bound on the retry-after value\<close>

text \<open>
  C10. If no stored instant of the key is later than the clock reading, the
  \<open>retry_after\<close> of a denial is at most \<open>time_window\<close> (and at least 1).
\<close>

theorem retry_after_at_most_window:
  assumes "\<forall>x \<in> set (stored rl k). x \<le> t"
    and "fst (is_allowed rl k t) = Inr (False, info)"
  shows "\<exists>r. retry_after info = Some r \<and> 1 \<le> r \<and> r \<le> time_window rl"
proof -
  let ?m = "Min (set (in_window rl k t))"
  let ?w = "real_of_int (time_window rl)"
  from denied_info_eq [OF assms(2)]
  have ne: "in_window rl k t \<noteq> []"
    and ra: "retry_after info = Some (max 1 (py_int (fl (fl (?m + ?w) - t))))"
    by simp_all
  have mem: "?m \<in> set (in_window rl k t)" using ne by simp
  then have lo: "t - ?w < ?m" by (rule in_window_recent)
  have hi: "?m \<le> t" using mem in_window_subset [of rl k t] assms(1) by blast
  have "0 < ?w" using lo hi by linarith
  then have w1: "1 \<le> time_window rl" by simp
  have "py_int (fl (fl (?m + ?w) - t)) \<le> time_window rl"
    by (rule retry_bound [OF hi lo])
  then show ?thesis using ra w1 by simp
qed

theorem retry_after_at_most_window_witness:
  "stored \<lparr>requests = [''1.2.3.4'' \<mapsto> [0, 0, 0, 0, 0]], max_requests = 5, time_window = 60\<rparr>
      ''1.2.3.4'' = [0, 0, 0, 0, 0]
   \<and> (0::real) \<le> 2 / 5
   \<and> fst (is_allowed
        \<lparr>requests = [''1.2.3.4'' \<mapsto> [0, 0, 0, 0, 0]], max_requests = 5, time_window = 60\<rparr>
        ''1.2.3.4'' (2 / 5))
     = Inr (False, \<lparr>allowed = False, requests_made = 5, requests_remaining = 0,
                     reset_time = 60, retry_after = Some 59\<rparr>)
   \<and> (\<exists>r. Some (59::int) = Some r \<and> 1 \<le> r
        \<and> r \<le> time_window
             \<lparr>requests = [''1.2.3.4'' \<mapsto> [0, 0, 0, 0, 0]], max_requests = 5, time_window = 60\<rparr>)"
proof -
  let ?rl = "\<lparr>requests = [''1.2.3.4'' \<mapsto> [0, 0, 0, 0, 0]], max_requests = 5, time_window = 60\<rparr>"
  have old: "\<forall>x \<in> set (stored ?rl ''1.2.3.4''). x \<le> 2 / 5"
    by (simp add: stored_def)
  have run: "fst (is_allowed ?rl ''1.2.3.4'' (2 / 5))
     = Inr (False, \<lparr>allowed = False, requests_made = 5, requests_remaining = 0,
                     reset_time = 60, retry_after = Some 59\<rparr>)"
    by (simp add: is_allowed_def getitem_def min_py_def py_int_def fl_eval)
  from retry_after_at_most_window [OF old run] run show ?thesis by (simp add: stored_def)
qed

end
